theory Spec2Isabelle
  imports Complex_Main
begin

section \<open>Break computation (debate/breaking.py)\<close>

text \<open>
  The module breaking.py as it stands does not compile: line 197 is a truncated statement, so
  importing the module raises a syntax error and none of its functions can be called. The model
  follows the text of the functions statement by statement, as Python would run them were each
  statement compiled on its own, and lets every statement that cannot run raise where it
  stands. There are three: the call of \<^verbatim>\<open>_capped_out\<close> at line 162, whose arguments do
  not fit the parameters of its definition (AttributeError at line 220), the truncated
  statement at line 197 (SyntaxError) and the read of the name
  \<^verbatim>\<open>capped_breakingteams\<close> at line 203, which is assigned nowhere (NameError). Nothing
  is written to the table before line 211, so a computation that raises leaves the table as it
  was.
\<close>

datatype error = SyntaxError | AttributeError | NameError

subsection \<open>Data model\<close>

text \<open>
  The break engine reads break categories and teams annotated with their standings, and
  reads and writes \<^verbatim>\<open>BreakingTeam\<close> rows. Integer columns are Python integers
  (\<^typ>\<open>int\<close>); list positions and counters are natural numbers.

  Modelled from the spec: the field \<^verbatim>\<open>institution_cap_rule\<close> of a break category
  and its three constants, which breaking.py reads but debate/models.py does not declare. The
  spec gives the rule as an enumeration of three variants (none, flat cap, AIDA 2016 hybrid).
\<close>

datatype cap_rule =
    INSTITUTION_CAP_RULE_NONE
  | INSTITUTION_CAP_RULE_AIDA_PRE_2015
  | INSTITUTION_CAP_RULE_AIDA_2016

record break_category =
  pk :: nat
  priority :: int
  break_size :: int
  is_general :: bool
  institution_cap :: "int option"
  institution_cap_rule :: cap_rule

text \<open>
  A team as \<^verbatim>\<open>annotate_team_standings\<close> returns it (module \<^verbatim>\<open>standings\<close> is
  not among the sources; its result, the teams in standings order with \<^verbatim>\<open>points\<close> and
  \<^verbatim>\<open>speaker_score\<close> attached, is an input of the model). Speaker scores are only
  compared for equality; they are rational numbers here.
\<close>

record team =
  team_id :: nat
  institution :: nat
  break_categories :: "nat list"
  points :: int
  speaker_score :: rat

text \<open>
  The columns of a \<^verbatim>\<open>BreakingTeam\<close> row. The table is unique on
  \<^verbatim>\<open>(break_category, team)\<close>, so it is a finite map from that pair of keys to the
  remaining columns.
\<close>

record breaking_team =
  rank :: int
  break_rank :: "int option"
  remark :: "string option"

type_synonym database = "nat \<times> nat \<Rightarrow> breaking_team option"

definition REMARK_CAPPED :: string where "REMARK_CAPPED = ''C''"
definition REMARK_INELIGIBLE :: string where "REMARK_INELIGIBLE = ''I''"
definition REMARK_DIFFERENT_BREAK :: string where "REMARK_DIFFERENT_BREAK = ''D''"
definition REMARK_DISQUALIFIED :: string where "REMARK_DISQUALIFIED = ''d''"
definition REMARK_LOST_COIN_TOSS :: string where "REMARK_LOST_COIN_TOSS = ''t''"
definition REMARK_WITHDRAWN :: string where "REMARK_WITHDRAWN = ''w''"

text \<open>Python's truth value of \<^verbatim>\<open>bt.remark\<close>: false for None and for the empty string.\<close>

definition truthy :: "string option \<Rightarrow> bool" where
  "truthy r = (case r of None \<Rightarrow> False | Some s \<Rightarrow> s \<noteq> [])"

subsection \<open>The institution cap\<close>

text \<open>
  \<^verbatim>\<open>num_teams_from_institution >= category.institution_cap\<close>. The cap is a nullable
  column; in Python 2 (the language of this code base) None orders below every integer, so
  the comparison with an empty cap is true.
\<close>

definition reaches_cap :: "int \<Rightarrow> int option \<Rightarrow> bool" where
  "reaches_cap n cap = (case cap of None \<Rightarrow> True | Some c \<Rightarrow> c \<le> n)"

text \<open>
  \<^verbatim>\<open>_capped_out(bt, category, num_teams_from_institution)\<close>, with the parameters of its
  \<^verbatim>\<open>def\<close> line. Python binds arguments by position, and the only call, at line 162,
  is \<^verbatim>\<open>_capped_out(category, num_teams_from_institution[team.institution], cur_rank)\<close>:
  the parameter \<^verbatim>\<open>category\<close> receives the counter, an integer. An argument is
  therefore a category or an integer. Reading \<^verbatim>\<open>category.institution_cap_rule\<close> of an
  integer raises AttributeError. Given a category, the branch of the AIDA 2016 rule reads
  \<^verbatim>\<open>cur_rank\<close>, which is neither a parameter nor a name of the module: NameError. The
  third parameter is an integer in every call.
\<close>

datatype argument = Category_arg break_category | Int_arg int

definition capped_out :: "argument \<Rightarrow> argument \<Rightarrow> int \<Rightarrow> error + bool" where
  "capped_out bt category num_teams_from_institution =
     (case category of
        Int_arg n \<Rightarrow> Inl AttributeError
      | Category_arg c \<Rightarrow>
          (case institution_cap_rule c of
             INSTITUTION_CAP_RULE_NONE \<Rightarrow> Inr False
           | INSTITUTION_CAP_RULE_AIDA_PRE_2015 \<Rightarrow>
               Inr (reaches_cap num_teams_from_institution (institution_cap c))
           | INSTITUTION_CAP_RULE_AIDA_2016 \<Rightarrow> Inl NameError))"

subsection \<open>The state of the walk\<close>

text \<open>
  The Python objects \<^verbatim>\<open>bt\<close> collected in \<^verbatim>\<open>breakingteams_all\<close>: each is the
  flag \<^verbatim>\<open>existing\<close>, the id of its team and its columns. The source also appends every
  object to \<^verbatim>\<open>breakingteams_to_save\<close> (existing) or \<^verbatim>\<open>breakingteams_to_create\<close>
  (not existing); these two lists are the two filters of \<^verbatim>\<open>breakingteams_all\<close> on the
  flag, which is what the assertion before saving states.
\<close>

type_synonym bt_object = "bool \<times> nat \<times> breaking_team"

definition bt_existing :: "bt_object \<Rightarrow> bool" where "bt_existing b = fst b"
definition bt_team :: "bt_object \<Rightarrow> nat" where "bt_team b = fst (snd b)"
definition bt_row :: "bt_object \<Rightarrow> breaking_team" where "bt_row b = snd (snd b)"

record walk_state =
  prev_rank_value :: "(int \<times> rat) option"
  cur_rank :: int
  cur_break_rank :: int
  cur_break_seq :: int
  teams_breaking :: "team list"
  breakingteams_all :: "bt_object list"
  num_teams_from_institution :: "nat \<Rightarrow> nat"

definition initial_state :: walk_state where
  "initial_state = \<lparr>prev_rank_value = None, cur_rank = 0, cur_break_rank = 0, cur_break_seq = 0,
     teams_breaking = [], breakingteams_all = [], num_teams_from_institution = (\<lambda>_. 0)\<rparr>"

subsection \<open>The walk over the ranked teams\<close>

definition rank_value :: "team \<Rightarrow> int \<times> rat" where
  "rank_value t = (points t, speaker_score t)"

definition is_new_rank :: "walk_state \<Rightarrow> team \<Rightarrow> bool" where
  "is_new_rank s t = (Some (rank_value t) \<noteq> prev_rank_value s)"

text \<open>The two \<^verbatim>\<open>break\<close> statements of the loop, both under \<^verbatim>\<open>if is_new_rank\<close>.\<close>

definition walk_stops :: "break_category \<Rightarrow> walk_state \<Rightarrow> team \<Rightarrow> bool" where
  "walk_stops category s t =
     (is_new_rank s t \<and>
      (break_size category \<le> int (length (teams_breaking s)) \<or>
       (institution_cap_rule category = INSTITUTION_CAP_RULE_AIDA_2016 \<and> points t < 5)))"

text \<open>
  \<^verbatim>\<open>BreakingTeam.objects.get(...)\<close>, or a new object when the row does not exist. A new
  object has no rank yet; the loop assigns it before anything reads it.
\<close>

definition get_or_new :: "database \<Rightarrow> break_category \<Rightarrow> team \<Rightarrow> bt_object" where
  "get_or_new db category t =
     (case db (pk category, team_id t) of
        Some r \<Rightarrow> (True, team_id t, r)
      | None \<Rightarrow> (False, team_id t, \<lparr>rank = 0, break_rank = None, remark = None\<rparr>))"

text \<open>The rank bookkeeping at the head of the loop body, when the loop goes on.\<close>

definition note_rank :: "nat \<Rightarrow> team \<Rightarrow> walk_state \<Rightarrow> walk_state" where
  "note_rank i t s =
     (if is_new_rank s t then s\<lparr>cur_rank := int i, prev_rank_value := Some (rank_value t)\<rparr>
      else s)"

text \<open>
  The chain of \<^verbatim>\<open>if/elif/else\<close> on one team: the state is the one after
  \<^verbatim>\<open>note_rank\<close>, \<^verbatim>\<open>new\<close> is \<^verbatim>\<open>is_new_rank\<close>. It returns the object and
  the state, or the error that the call of \<^verbatim>\<open>_capped_out\<close> raises. The call is the
  third test of the chain, so the branches after it (capped, different break, admission) are
  behind it.
\<close>

definition decide ::
  "break_category \<Rightarrow> nat set \<Rightarrow> bool \<Rightarrow> team \<Rightarrow> bt_object \<Rightarrow> walk_state
     \<Rightarrow> error + bt_object \<times> walk_state" where
  "decide category teams_broken_higher_priority new t b s =
     (let r = (bt_row b)\<lparr>rank := cur_rank s\<rparr> in
      if bt_existing b \<and> truthy (remark r) then
        Inr ((bt_existing b, bt_team b, r\<lparr>break_rank := None\<rparr>), s)
      else if pk category \<notin> set (break_categories t) then
        Inr ((bt_existing b, bt_team b, r\<lparr>remark := Some REMARK_INELIGIBLE\<rparr>), s)
      else
        (case capped_out (Category_arg category)
                (Int_arg (int (num_teams_from_institution s (institution t)))) (cur_rank s) of
           Inl e \<Rightarrow> Inl e
         | Inr capped \<Rightarrow>
             if capped then
               Inr ((bt_existing b, bt_team b, r\<lparr>remark := Some REMARK_CAPPED\<rparr>), s)
             else if team_id t \<in> teams_broken_higher_priority then
               Inr ((bt_existing b, bt_team b, r\<lparr>remark := Some REMARK_DIFFERENT_BREAK\<rparr>), s)
             else
               (let seq = cur_break_seq s + 1;
                    brk = (if new then seq else cur_break_rank s)
                in Inr ((bt_existing b, bt_team b, r\<lparr>break_rank := Some brk\<rparr>),
                        s\<lparr>cur_break_seq := seq, cur_break_rank := brk,
                          teams_breaking := teams_breaking s @ [t]\<rparr>))))"

text \<open>
  The loop body after the two \<^verbatim>\<open>break\<close> tests: the object is appended to
  \<^verbatim>\<open>breakingteams_all\<close> and the counter of the team's institution goes up by one,
  whatever branch was taken.
\<close>

definition loop_body ::
  "break_category \<Rightarrow> database \<Rightarrow> nat set \<Rightarrow> nat \<Rightarrow> team \<Rightarrow> walk_state \<Rightarrow> error + walk_state" where
  "loop_body category db higher i t s =
     (case decide category higher (is_new_rank s t) t (get_or_new db category t)
             (note_rank i t s) of
        Inl e \<Rightarrow> Inl e
      | Inr (b, s') \<Rightarrow>
          Inr (s'\<lparr>breakingteams_all := breakingteams_all s' @ [b],
                  num_teams_from_institution :=
                    (num_teams_from_institution s')
                      (institution t := num_teams_from_institution s' (institution t) + 1)\<rparr>))"

text \<open>\<^verbatim>\<open>for i, team in enumerate(eligible_teams, start=1)\<close>, with its early exits.\<close>

fun walk ::
  "break_category \<Rightarrow> database \<Rightarrow> nat set \<Rightarrow> nat \<Rightarrow> team list \<Rightarrow> walk_state \<Rightarrow> error + walk_state" where
  "walk category db higher i [] s = Inr s"
| "walk category db higher i (t # ts) s =
     (if walk_stops category s t then Inr s
      else (case loop_body category db higher i t s of
              Inl e \<Rightarrow> Inl e
            | Inr s' \<Rightarrow> walk category db higher (Suc i) ts s'))"

subsection \<open>Backfill\<close>

text \<open>
  Lines 188 to 205. The loop over \<^verbatim>\<open>breakingteams_all\<close> (lines 192 to 199) reaches the
  truncated statement \<^verbatim>\<open>num_teams_to_cap_in -=\<close> in its first pass, so it raises as
  soon as the list has an object; before that statement it only assigns local variables. The
  block after it,
  \<^verbatim>\<open>
    if len(teams_breaking) < category.break_size:
        for i, bt in enumerate(capped_breakingteams):
  \<close>
  raises NameError when the break is short. No statement of these lines assigns a break rank
  or appends to \<^verbatim>\<open>teams_breaking\<close>, so what they return is the state they were
  given.
\<close>

definition backfill :: "break_category \<Rightarrow> walk_state \<Rightarrow> error + walk_state" where
  "backfill category s =
     (if breakingteams_all s \<noteq> [] then Inl SyntaxError
      else if int (length (teams_breaking s)) < break_size category then Inl NameError
      else Inr s)"

subsection \<open>Saving\<close>

text \<open>
  \<^verbatim>\<open>bt.save()\<close> for the existing objects, \<^verbatim>\<open>bulk_create\<close> for the new ones, then
  the deletion of every row of the category that has a break rank and whose team is not in
  \<^verbatim>\<open>teams_breaking\<close>. (\<^verbatim>\<open>full_clean\<close> validates and changes nothing.)
\<close>

definition save_row :: "nat \<Rightarrow> bt_object \<Rightarrow> database \<Rightarrow> database" where
  "save_row c b db = db((c, bt_team b) \<mapsto> bt_row b)"

definition has_break_rank :: "database \<Rightarrow> nat \<Rightarrow> nat \<Rightarrow> bool" where
  "has_break_rank db c t = (case db (c, t) of None \<Rightarrow> False | Some r \<Rightarrow> break_rank r \<noteq> None)"

definition delete_not_breaking :: "nat \<Rightarrow> nat list \<Rightarrow> database \<Rightarrow> database" where
  "delete_not_breaking c ids db =
     (\<lambda>key. if fst key = c \<and> has_break_rank db c (snd key) \<and> snd key \<notin> set ids then None
            else db key)"

definition persist :: "break_category \<Rightarrow> walk_state \<Rightarrow> database \<Rightarrow> database" where
  "persist category s db =
     (let breakingteams_to_save = filter bt_existing (breakingteams_all s);
          breakingteams_to_create = filter (\<lambda>b. \<not> bt_existing b) (breakingteams_all s);
          db1 = fold (save_row (pk category)) breakingteams_to_save db;
          db2 = fold (save_row (pk category)) breakingteams_to_create db1
      in delete_not_breaking (pk category) (map team_id (teams_breaking s)) db2)"

text \<open>
  \<^verbatim>\<open>_generate_teams_breaking\<close>: the table after the call, and either the error raised or
  the returned list \<^verbatim>\<open>teams_breaking\<close>. Its argument \<^verbatim>\<open>eligible_teams\<close> is the
  list after \<^verbatim>\<open>annotate_team_standings\<close>. All writes are in the last step, so the table
  of a call that raises is the table it was given.
\<close>

definition generate_teams_breaking ::
  "break_category \<Rightarrow> team list \<Rightarrow> nat set \<Rightarrow> database \<Rightarrow> database \<times> (error + team list)" where
  "generate_teams_breaking category eligible_teams higher db =
     (case walk category db higher 1 eligible_teams initial_state of
        Inl e \<Rightarrow> (db, Inl e)
      | Inr s \<Rightarrow>
          (case backfill category s of
             Inl e \<Rightarrow> (db, Inl e)
           | Inr s' \<Rightarrow> (persist category s' db, Inr (teams_breaking s'))))"

subsection \<open>All categories\<close>

text \<open>
  \<^verbatim>\<open>_eligible_team_set\<close> followed by \<^verbatim>\<open>annotate_team_standings\<close>: the teams of the
  tournament are given in standings order, and the teams of a category that is not general
  are those that list the category, in the same order.
\<close>

definition eligible_team_set :: "team list \<Rightarrow> break_category \<Rightarrow> team list" where
  "eligible_team_set standings category =
     (if is_general category then standings
      else filter (\<lambda>t. pk category \<in> set (break_categories t)) standings)"

text \<open>
  \<^verbatim>\<open>breakcategory_set.order_by('priority')\<close>. The order among categories of the same
  priority is the database's; the model sorts stably.
\<close>

definition order_by_priority :: "break_category list \<Rightarrow> break_category list" where
  "order_by_priority cats = sort_key priority cats"

text \<open>
  \<^verbatim>\<open>update_all_teams_breaking\<close>: the loop over the categories, which an error of one
  computation leaves, and the table after the call with the error raised, if any.
\<close>

type_synonym all_state = "nat set \<times> nat set \<times> int option \<times> database"

fun update_all_loop ::
  "team list \<Rightarrow> break_category list \<Rightarrow> all_state \<Rightarrow> all_state \<times> error option" where
  "update_all_loop standings [] st = (st, None)"
| "update_all_loop standings (category # cats)
       (teams_broken_higher_priority, teams_broken_cur_priority, cur_priority, db) =
     (let (higher, cur) =
            (if cur_priority \<noteq> Some (priority category)
             then (teams_broken_higher_priority \<union> teams_broken_cur_priority, {})
             else (teams_broken_higher_priority, teams_broken_cur_priority))
      in case generate_teams_breaking category (eligible_team_set standings category) higher db of
           (db', Inl e) \<Rightarrow> ((higher, cur, Some (priority category), db'), Some e)
         | (db', Inr this_break) \<Rightarrow>
             update_all_loop standings cats
               (higher, cur \<union> set (map team_id this_break), Some (priority category), db'))"

definition update_all_teams_breaking ::
  "team list \<Rightarrow> break_category list \<Rightarrow> database \<Rightarrow> database \<times> error option" where
  "update_all_teams_breaking standings cats db =
     (case update_all_loop standings (order_by_priority cats) ({}, {}, None, db) of
        ((higher, cur, cur_priority, db'), e) \<Rightarrow> (db', e))"

section \<open>Adjudicator allocations (debate/models.py)\<close>

text \<open>
  \<^verbatim>\<open>AdjudicatorAllocation\<close> is a plain container: a debate, an optional chair, a panel
  and trainees. A member is an \<^verbatim>\<open>Adjudicator\<close> instance (whose id is None until it is
  stored) or a bare id; \<^verbatim>\<open>save\<close> accepts both.
\<close>

datatype adjudicator_ref = Adjudicator "nat option" | Adjudicator_id nat

datatype adjudicator_type = TYPE_CHAIR | TYPE_PANEL | TYPE_TRAINEE

record adjudicator_allocation =
  debate :: nat
  chair :: "adjudicator_ref option"
  panel :: "adjudicator_ref list"
  trainees :: "adjudicator_ref list"

text \<open>The rows of \<^verbatim>\<open>DebateAdjudicator\<close>: debate, adjudicator id, type.\<close>

type_synonym debate_adjudicators = "(nat \<times> nat \<times> adjudicator_type) list"

definition has_chair :: "adjudicator_allocation \<Rightarrow> bool" where
  "has_chair a = (chair a \<noteq> None)"

definition is_panel :: "adjudicator_allocation \<Rightarrow> bool" where
  "is_panel a = (0 < length (panel a))"

definition valid :: "adjudicator_allocation \<Rightarrow> bool" where
  "valid a = (has_chair a \<and> length (panel a) mod 2 = 0)"

text \<open>\<^verbatim>\<open>__iter__\<close>: the chair if there is one, then the panel, then the trainees.\<close>

definition iter :: "adjudicator_allocation \<Rightarrow> (adjudicator_type \<times> adjudicator_ref) list" where
  "iter a =
     (case chair a of None \<Rightarrow> [] | Some c \<Rightarrow> [(TYPE_CHAIR, c)]) @
     map (Pair TYPE_PANEL) (panel a) @ map (Pair TYPE_TRAINEE) (trainees a)"

text \<open>
  The body of the loop of \<^verbatim>\<open>save\<close>: an instance is replaced by its id, and a row is
  written when the id is true in Python's sense (neither None nor 0).
\<close>

definition member_rows :: "nat \<Rightarrow> adjudicator_type \<times> adjudicator_ref \<Rightarrow> debate_adjudicators" where
  "member_rows d m =
     (case (case snd m of Adjudicator i \<Rightarrow> i | Adjudicator_id n \<Rightarrow> Some n) of
        None \<Rightarrow> []
      | Some n \<Rightarrow> if n = 0 then [] else [(d, n, fst m)])"

definition save :: "adjudicator_allocation \<Rightarrow> debate_adjudicators \<Rightarrow> debate_adjudicators" where
  "save a rows =
     filter (\<lambda>r. fst r \<noteq> debate a) rows @ concat (map (member_rows (debate a)) (iter a))"

text \<open>\<^verbatim>\<open>Round.adjudicators_allocation_validity\<close>, on the allocations of the draw.\<close>

definition adjudicators_allocation_validity :: "adjudicator_allocation list \<Rightarrow> nat" where
  "adjudicators_allocation_validity debates =
     (if \<not> list_all has_chair debates then 1
      else if \<not> list_all valid debates then 2
      else 0)"

section \<open>Materialising a draw (Round.make\_debates)\<close>

record venue =
  venue_pk :: nat
  group :: "nat option"

record division =
  division_pk :: nat
  venue_group :: "nat option"

record draw_team =
  draw_team_pk :: nat
  team_type :: string

text \<open>A pairing of the draw generator: \<^verbatim>\<open>teams[0]\<close> is the affirmative team.\<close>

record pairing =
  teams :: "draw_team \<times> draw_team"
  pairing_division :: "division option"
  bracket :: rat
  room_rank :: int
  flags :: "string list"

record debate_row =
  debate_round :: nat
  debate_venue :: "venue option"
  debate_division :: "division option"
  debate_bracket :: rat
  debate_room_rank :: int
  debate_flags :: string

text \<open>
  The tables \<^verbatim>\<open>Debate\<close> and \<^verbatim>\<open>DebateTeam\<close>; a debate is identified by its position
  in the first, and a \<^verbatim>\<open>DebateTeam\<close> row is debate, team, position.
\<close>

record draw_tables =
  debates :: "debate_row list"
  debate_teams :: "(nat \<times> nat \<times> string) list"

datatype draw_error = DrawError nat nat

definition POSITION_AFFIRMATIVE :: string where "POSITION_AFFIRMATIVE = ''A''"
definition POSITION_NEGATIVE :: string where "POSITION_NEGATIVE = ''N''"

fun join_flags :: "string list \<Rightarrow> string" where
  "join_flags [] = []"
| "join_flags [f] = f"
| "join_flags (f # g # fs) = f @ '','' @ join_flags (g # fs)"

text \<open>
  The \<^verbatim>\<open>try\<close> block that picks the venue of one pairing. Any exception in it
  (\<^verbatim>\<open>StopIteration\<close> when no venue of the division's group is left,
  \<^verbatim>\<open>IndexError\<close> when the list is empty) is caught and leaves the debate without
  venue.
\<close>

definition select_venue :: "pairing \<Rightarrow> venue list \<Rightarrow> venue option \<times> venue list" where
  "select_venue p venues =
     (case pairing_division p of
        Some d \<Rightarrow>
          (if team_type (fst (teams p)) = ''B'' \<or> team_type (snd (teams p)) = ''B''
           then (None, venues)
           else (case find (\<lambda>v. group v = venue_group d) venues of
                   Some v \<Rightarrow> (Some v, remove1 v venues)
                 | None \<Rightarrow> (None, venues)))
      | None \<Rightarrow> (case venues of v # vs \<Rightarrow> (Some v, vs) | [] \<Rightarrow> (None, [])))"

fun create_debates :: "nat \<Rightarrow> venue list \<Rightarrow> pairing list \<Rightarrow> draw_tables \<Rightarrow> draw_tables" where
  "create_debates r venues [] db = db"
| "create_debates r venues (p # ps) db =
     (let (selected_venue, venues') = select_venue p venues;
          d = \<lparr>debate_round = r, debate_venue = selected_venue,
               debate_division = pairing_division p, debate_bracket = bracket p,
               debate_room_rank = room_rank p, debate_flags = join_flags (flags p)\<rparr>;
          n = length (debates db)
      in create_debates r venues' ps
           (db\<lparr>debates := debates db @ [d],
               debate_teams := debate_teams db @
                 [(n, draw_team_pk (fst (teams p)), POSITION_AFFIRMATIVE),
                  (n, draw_team_pk (snd (teams p)), POSITION_NEGATIVE)]\<rparr>))"

text \<open>
  \<^verbatim>\<open>make_debates\<close>. The active venues arrive ordered by priority; the two calls of
  \<^verbatim>\<open>random.shuffle\<close> are parameters, each some reordering of its list. The result is
  the tables after the call and the error raised, if any.
\<close>

definition make_debates ::
  "(venue list \<Rightarrow> venue list) \<Rightarrow> (pairing list \<Rightarrow> pairing list) \<Rightarrow> nat \<Rightarrow> venue list \<Rightarrow>
     pairing list \<Rightarrow> draw_tables \<Rightarrow> draw_tables \<times> draw_error option" where
  "make_debates shuffle_venues shuffle_pairings r active_venues pairings db =
     (let venues = take (length pairings) active_venues
      in if length venues < length pairings
         then (db, Some (DrawError (length pairings) (length venues)))
         else (create_debates r (shuffle_venues venues) (shuffle_pairings pairings) db, None))"

section \<open>Notions used in the statements\<close>

text \<open>The row of the team exists and carries a remark that Python takes as true.\<close>

definition existing_remark :: "database \<Rightarrow> break_category \<Rightarrow> team \<Rightarrow> bool" where
  "existing_remark db category t =
     (case db (pk category, team_id t) of None \<Rightarrow> False | Some r \<Rightarrow> truthy (remark r))"

text \<open>
  The two tests of the chain that come before the cap check: a team that passes one of them
  is dealt with before \<^verbatim>\<open>_capped_out\<close> is called.
\<close>

definition skipped :: "database \<Rightarrow> break_category \<Rightarrow> team \<Rightarrow> bool" where
  "skipped db c t = (existing_remark db c t \<or> pk c \<notin> set (break_categories t))"

text \<open>
  A member of an allocation refers to the adjudicator with id \<open>n\<close>: it is a stored instance
  with that id, or the bare id.
\<close>

definition refers_to :: "adjudicator_ref \<Rightarrow> nat \<Rightarrow> bool" where
  "refers_to m n = (m = Adjudicator (Some n) \<or> m = Adjudicator_id n)"

subsection \<open>Example inputs\<close>

definition empty_table :: database where
  "empty_table = (\<lambda>key. None)"

definition open_category :: "int \<Rightarrow> break_category" where
  "open_category n = \<lparr>pk = 1, priority = 1, break_size = n, is_general = True,
     institution_cap = None, institution_cap_rule = INSTITUTION_CAP_RULE_NONE\<rparr>"

definition flat_cap_category :: "int \<Rightarrow> break_category" where
  "flat_cap_category n = \<lparr>pk = 1, priority = 1, break_size = n, is_general = True,
     institution_cap = Some 1, institution_cap_rule = INSTITUTION_CAP_RULE_AIDA_PRE_2015\<rparr>"


text \<open>Two teams of different institutions, on 6 and 5 points.\<close>

definition two_teams :: "team list" where
  "two_teams =
     [\<lparr>team_id = 1, institution = 1, break_categories = [1], points = 6, speaker_score = 100\<rparr>,
      \<lparr>team_id = 2, institution = 2, break_categories = [1], points = 5, speaker_score = 90\<rparr>]"



text \<open>Scenario 1 of the spec: four teams on 6, 6, 3 and 3 points.\<close>

definition four_teams :: "team list" where
  "four_teams =
     [\<lparr>team_id = 1, institution = 1, break_categories = [1], points = 6, speaker_score = 100\<rparr>,
      \<lparr>team_id = 2, institution = 2, break_categories = [1], points = 6, speaker_score = 100\<rparr>,
      \<lparr>team_id = 3, institution = 3, break_categories = [1], points = 3, speaker_score = 80\<rparr>,
      \<lparr>team_id = 4, institution = 4, break_categories = [1], points = 3, speaker_score = 80\<rparr>]"

text \<open>Scenarios 2 and 3 of the spec: A and B of one institution, C of another.\<close>

definition three_teams :: "team list" where
  "three_teams =
     [\<lparr>team_id = 1, institution = 1, break_categories = [1], points = 6, speaker_score = 100\<rparr>,
      \<lparr>team_id = 2, institution = 1, break_categories = [1], points = 5, speaker_score = 90\<rparr>,
      \<lparr>team_id = 3, institution = 2, break_categories = [1], points = 4, speaker_score = 80\<rparr>]"

text \<open>
  A table in which team 9 of category 1, which is not among the teams of the examples,
  still holds the break rank of an earlier computation.
\<close>

definition stale_table :: database where
  "stale_table = empty_table((1, 9) \<mapsto> \<lparr>rank = 2, break_rank = Some 2, remark = None\<rparr>)"

text \<open>
  A table in which an operator has marked team \<open>t\<close> of category 1, which held break
  rank 3, as withdrawn.
\<close>

definition withdrawn_table :: "nat \<Rightarrow> database" where
  "withdrawn_table t =
     empty_table((1, t) \<mapsto> \<lparr>rank = 7, break_rank = Some 3, remark = Some REMARK_WITHDRAWN\<rparr>)"

text \<open>
  Three categories that take one team each, two of priority 1 and one of priority 2, listed
  out of order, and two teams that are eligible for all three.
\<close>

definition single_category :: "nat \<Rightarrow> int \<Rightarrow> break_category" where
  "single_category n p = \<lparr>pk = n, priority = p, break_size = 1, is_general = False,
     institution_cap = None, institution_cap_rule = INSTITUTION_CAP_RULE_NONE\<rparr>"

definition three_categories :: "break_category list" where
  "three_categories = [single_category 3 2, single_category 1 1, single_category 2 1]"

definition versatile_teams :: "team list" where
  "versatile_teams =
     [\<lparr>team_id = 1, institution = 1, break_categories = [1, 2, 3], points = 6, speaker_score = 100\<rparr>,
      \<lparr>team_id = 2, institution = 2, break_categories = [1, 2, 3], points = 5, speaker_score = 90\<rparr>]"

text \<open>
  A table in which team 1 holds break rank 1 both in category 1, of priority 1, and in
  category 3, of priority 2.
\<close>

definition double_break_table :: database where
  "double_break_table =
     empty_table((1, 1) \<mapsto> \<lparr>rank = 1, break_rank = Some 1, remark = None\<rparr>,
                 (3, 1) \<mapsto> \<lparr>rank = 1, break_rank = Some 1, remark = None\<rparr>)"

text \<open>
  An allocation for debate 7 that is not valid: it has no chair and a panel of one. Its
  panellist is a stored instance, its trainee a bare id. The table holds a chair of debate 7
  from an earlier save and a chair of debate 8.
\<close>

definition unchaired_allocation :: adjudicator_allocation where
  "unchaired_allocation =
     \<lparr>debate = 7, chair = None, panel = [Adjudicator (Some 3)], trainees = [Adjudicator_id 5]\<rparr>"

definition stored_rows :: debate_adjudicators where
  "stored_rows = [(7, 9, TYPE_CHAIR), (8, 2, TYPE_CHAIR)]"

text \<open>One venue for two pairings.\<close>

definition keep_order :: "'a list \<Rightarrow> 'a list" where
  "keep_order xs = xs"

definition one_venue :: "venue list" where
  "one_venue = [\<lparr>venue_pk = 1, group = None\<rparr>]"

definition two_pairings :: "pairing list" where
  "two_pairings =
     [\<lparr>teams = (\<lparr>draw_team_pk = 1, team_type = ''N''\<rparr>, \<lparr>draw_team_pk = 2, team_type = ''N''\<rparr>),
       pairing_division = None, bracket = 1, room_rank = 1, flags = []\<rparr>,
      \<lparr>teams = (\<lparr>draw_team_pk = 3, team_type = ''N''\<rparr>, \<lparr>draw_team_pk = 4, team_type = ''N''\<rparr>),
       pairing_division = None, bracket = 0, room_rank = 2, flags = []\<rparr>]"

definition no_debates :: draw_tables where
  "no_debates = \<lparr>debates = [], debate_teams = []\<rparr>"

section \<open>Properties of the walk\<close>

subsection \<open>The call of the cap check\<close>

text \<open>
  Line 162 passes the counter where the definition expects the category: the call raises
  AttributeError whatever the rule, the count and the rank.
\<close>

lemma capped_out_call:
  "capped_out (Category_arg c) (Int_arg n) r = Inl AttributeError"
  by (simp add: capped_out_def)

text \<open>
  Hence the chain of tests has three outcomes: the scrub of an existing row with a remark,
  the remark ineligible, and the error. The branches capped, different break and admission
  are never taken.
\<close>

lemma decide_outcomes:
  "decide c h new t b s =
     (if bt_existing b \<and> truthy (remark (bt_row b)) then
        Inr ((bt_existing b, bt_team b, (bt_row b)\<lparr>rank := cur_rank s, break_rank := None\<rparr>), s)
      else if pk c \<notin> set (break_categories t) then
        Inr ((bt_existing b, bt_team b,
              (bt_row b)\<lparr>rank := cur_rank s, remark := Some REMARK_INELIGIBLE\<rparr>), s)
      else Inl AttributeError)"
  by (simp add: decide_def Let_def capped_out_def)

lemma get_or_new_existing:
  "bt_existing (get_or_new db c t) \<and> truthy (remark (bt_row (get_or_new db c t))) \<longleftrightarrow>
     existing_remark db c t"
  by (simp add: get_or_new_def existing_remark_def bt_existing_def bt_row_def truthy_def
      split: option.splits)

lemma get_or_new_team: "bt_team (get_or_new db c t) = team_id t"
  by (simp add: get_or_new_def bt_team_def split: option.splits)

lemma bt_parts:
  "bt_existing (e, n, r) = e" "bt_team (e, n, r) = n" "bt_row (e, n, r) = r"
  by (simp_all add: bt_existing_def bt_team_def bt_row_def)

lemma loop_body_raises:
  "\<not> skipped db c t \<Longrightarrow> loop_body c db h i t s = Inl AttributeError"
  by (simp add: loop_body_def decide_outcomes get_or_new_existing skipped_def)

lemma loop_body_returns:
  assumes "loop_body c db h i t s = Inr s'"
  shows "skipped db c t"
    and "teams_breaking s' = teams_breaking s"
    and "length (breakingteams_all s') = Suc (length (breakingteams_all s))"
    and "map bt_team (breakingteams_all s') = map bt_team (breakingteams_all s) @ [team_id t]"
    and "num_teams_from_institution s' =
           (num_teams_from_institution s)
             (institution t := Suc (num_teams_from_institution s (institution t)))"
    and "prev_rank_value s' = Some (rank_value t)"
  using assms
  by (auto simp: loop_body_def decide_outcomes get_or_new_existing get_or_new_team skipped_def
      note_rank_def is_new_rank_def bt_parts split: if_splits)


text \<open>No walk that returns has admitted a team.\<close>

lemma walk_admits_nobody:
  "walk c db h i ts s = Inr s' \<Longrightarrow> teams_breaking s' = teams_breaking s"
proof (induction ts arbitrary: i s)
  case Nil
  then show ?case by simp
next
  case (Cons t ts)
  show ?case
  proof (cases "walk_stops c s t")
    case True
    with Cons.prems show ?thesis by simp
  next
    case False
    with Cons.prems obtain s1 where b: "loop_body c db h i t s = Inr s1"
      and w: "walk c db h (Suc i) ts s1 = Inr s'"
      by (auto split: sum.splits)
    from Cons.IH [OF w] loop_body_returns(2) [OF b] show ?thesis by simp
  qed
qed




lemma is_new_rank_initial: "is_new_rank initial_state t"
  by (simp add: is_new_rank_def initial_state_def)

subsection \<open>Where the walk ends\<close>


subsection \<open>The counter of teams by institution\<close>



section \<open>Properties of the computation for one category\<close>

text \<open>
  With a break size of 0 or less the walk stops at the first team, no object is made, and the
  call returns an empty break after deleting the rows of the category that hold a break rank.
  With a positive break size the call raises: the walk raises at the first team that passes
  both early tests, and a walk that returns has admitted nobody, so that the lines after it
  raise. The table is then the one the call was given.
\<close>

lemma walk_nonpositive:
  assumes "break_size c \<le> 0"
  shows "walk c db h i ts initial_state = Inr initial_state"
proof (cases ts)
  case Nil
  then show ?thesis by simp
next
  case (Cons t us)
  have "walk_stops c initial_state t"
    using assms by (simp add: walk_stops_def is_new_rank_initial)
  with Cons show ?thesis by simp
qed

lemma persist_initial: "persist c initial_state db = delete_not_breaking (pk c) [] db"
  by (simp add: persist_def initial_state_def)

lemma generate_nonpositive:
  assumes "break_size c \<le> 0"
  shows "generate_teams_breaking c ts h db = (delete_not_breaking (pk c) [] db, Inr [])"
proof -
  have "backfill c initial_state = Inr initial_state"
    using assms by (simp add: backfill_def initial_state_def)
  with walk_nonpositive [OF assms] show ?thesis
    by (simp add: generate_teams_breaking_def persist_initial) (simp add: initial_state_def)
qed

lemma generate_positive:
  assumes "0 < break_size c"
  shows "\<exists>e. generate_teams_breaking c ts h db = (db, Inl e)"
proof (cases "walk c db h 1 ts initial_state")
  case (Inl e)
  then show ?thesis by (simp add: generate_teams_breaking_def)
next
  case (Inr s)
  from walk_admits_nobody [OF Inr] have "teams_breaking s = []"
    by (simp add: initial_state_def)
  with assms have "\<exists>e. backfill c s = Inl e"
    by (simp add: backfill_def)
  with Inr show ?thesis by (auto simp: generate_teams_breaking_def)
qed

text \<open>The call returns exactly when the break size is 0 or less.\<close>

lemma generate_returns_iff:
  "(\<exists>tb. snd (generate_teams_breaking c ts h db) = Inr tb) \<longleftrightarrow> break_size c \<le> 0"
proof (cases "break_size c \<le> 0")
  case True
  with generate_nonpositive [OF True, of ts h db] show ?thesis by simp
next
  case False
  then have "0 < break_size c" by simp
  from generate_positive [OF this, of ts h db] False show ?thesis by auto
qed

text \<open>A row is left as it was or deleted; no call changes a column of a row or adds a row.\<close>

lemma generate_writes_no_row:
  "fst (generate_teams_breaking c ts h db) key = db key \<or>
   fst (generate_teams_breaking c ts h db) key = None"
proof (cases "break_size c \<le> 0")
  case True
  with generate_nonpositive [OF True, of ts h db] show ?thesis
    by (simp add: delete_not_breaking_def)
next
  case False
  then have "0 < break_size c" by simp
  from generate_positive [OF this, of ts h db] show ?thesis by auto
qed

text \<open>
  On the table a second call changes nothing: a call that raises leaves the table, and one
  that returns has deleted what the second would delete.
\<close>

lemma delete_not_breaking_twice:
  "delete_not_breaking c ids (delete_not_breaking c ids db) = delete_not_breaking c ids db"
  by (rule ext) (auto simp: delete_not_breaking_def has_break_rank_def split: option.splits)

lemma generate_table_idempotent:
  "fst (generate_teams_breaking c ts h (fst (generate_teams_breaking c ts h db))) =
   fst (generate_teams_breaking c ts h db)"
proof (cases "break_size c \<le> 0")
  case True
  then show ?thesis by (simp add: generate_nonpositive delete_not_breaking_twice)
next
  case False
  then have "0 < break_size c" by simp
  from generate_positive [OF this, of ts h db] obtain e where
    "generate_teams_breaking c ts h db = (db, Inl e)" by blast
  then show ?thesis by simp
qed

section \<open>Properties of the computation of all categories\<close>

text \<open>
  When every category has a positive break size the computation of all categories raises in
  the first category and leaves the table as it was.
\<close>

lemma update_all_loop_positive:
  assumes "0 < break_size c"
  shows "\<exists>e hi cu p. update_all_loop st (c # cs) (hi0, cu0, p0, db) = ((hi, cu, p, db), Some e)"
proof -
  obtain hi cu where hc: "(if p0 \<noteq> Some (priority c) then (hi0 \<union> cu0, {}) else (hi0, cu0)) = (hi, cu)"
    by (cases "p0 \<noteq> Some (priority c)") auto
  from generate_positive [OF assms, of "eligible_team_set st c" hi db] obtain e where
    "generate_teams_breaking c (eligible_team_set st c) hi db = (db, Inl e)" by blast
  with hc show ?thesis by (auto simp: Let_def)
qed

lemma update_all_positive:
  assumes "cats \<noteq> []" and "\<forall>c\<in>set cats. 0 < break_size c"
  shows "\<exists>e. update_all_teams_breaking st cats db = (db, Some e)"
proof -
  from assms(1) have "set (order_by_priority cats) \<noteq> {}"
    by (simp add: order_by_priority_def)
  then have "order_by_priority cats \<noteq> []"
    by auto
  then obtain c cs where o: "order_by_priority cats = c # cs"
    by (cases "order_by_priority cats") auto
  then have "c \<in> set (order_by_priority cats)" by simp
  then have "c \<in> set cats" by (simp add: order_by_priority_def)
  with assms(2) have "0 < break_size c" by blast
  from update_all_loop_positive [OF this, of st cs "{}" "{}" None db] o show ?thesis
    by (auto simp: update_all_teams_breaking_def)
qed

section \<open>The claims on concrete inputs\<close>

lemmas walk_defs =
  walk_stops_def is_new_rank_def rank_value_def initial_state_def loop_body_def decide_def
  capped_out_def get_or_new_def note_rank_def bt_existing_def bt_team_def bt_row_def truthy_def
  REMARK_INELIGIBLE_def REMARK_WITHDRAWN_def Let_def





text \<open>
  At the first team that passes both early tests the cap check is called, and the walk raises
  whatever the counter holds.
\<close>

lemma walk_raises_at_first_candidate:
  assumes "\<not> walk_stops c s t" and "\<not> skipped db c t"
  shows "walk c db h i (t # ts) s = Inl AttributeError"
  using assms by (simp add: loop_body_raises)

text \<open>
  The lines between the walk and the saving promote no team: when they return, the state is
  the one they were given, no object had been made and the break was full.
\<close>

lemma backfill_promotes_nobody:
  "backfill c s = Inr s' \<Longrightarrow>
   s' = s \<and> breakingteams_all s = [] \<and> break_size c \<le> int (length (teams_breaking s))"
  by (auto simp: backfill_def split: if_splits)

text \<open>
  Claim C2 on scenario 3 of the spec (cap 1, flat rule, break size 3, teams A and B of one
  institution and C of another, empty table). The claim asks for min(3, 3) = 3 teams with a
  break rank, B promoted by the backfill. The call raises AttributeError at team A, in the cap
  check, and the table stays empty: no team has a break rank.
\<close>

theorem scenario_3_break_left_empty:
  "generate_teams_breaking (flat_cap_category 3) three_teams {} empty_table =
     (empty_table, Inl AttributeError) \<and>
   filter (has_break_rank empty_table 1) (map team_id three_teams) = [] \<and>
   min (break_size (flat_cap_category 3)) (int (length three_teams)) = 3"
proof -
  have "walk (flat_cap_category 3) empty_table {} 1 three_teams initial_state = Inl AttributeError"
    by (simp add: three_teams_def flat_cap_category_def empty_table_def walk_defs)
  then have 1: "generate_teams_breaking (flat_cap_category 3) three_teams {} empty_table =
     (empty_table, Inl AttributeError)"
    by (simp add: generate_teams_breaking_def)
  have 2: "filter (has_break_rank empty_table 1) (map team_id three_teams) = []"
    by (simp add: has_break_rank_def empty_table_def three_teams_def)
  have 3: "min (break_size (flat_cap_category 3)) (int (length three_teams)) = 3"
    by (simp add: flat_cap_category_def three_teams_def)
  from 1 2 3 show ?thesis by simp
qed

text \<open>
  Claim C3 on scenario 1 of the spec (four teams on 6, 6, 3 and 3 points, break size 2, no
  cap, empty table). The claim asks for the ranks 1, 1, 3, 3 and break rank 1 for the two
  teams on 6 points. The call raises AttributeError at the first team and no team has a row,
  so none has a rank or a break rank.
\<close>

theorem scenario_1_stores_no_rank:
  "generate_teams_breaking (open_category 2) four_teams {} empty_table =
     (empty_table, Inl AttributeError) \<and>
   map (\<lambda>t. empty_table (1, team_id t)) four_teams = [None, None, None, None]"
proof -
  have "walk (open_category 2) empty_table {} 1 four_teams initial_state = Inl AttributeError"
    by (simp add: four_teams_def open_category_def empty_table_def walk_defs)
  then have 1: "generate_teams_breaking (open_category 2) four_teams {} empty_table =
     (empty_table, Inl AttributeError)"
    by (simp add: generate_teams_breaking_def)
  have 2: "map (\<lambda>t. empty_table (1, team_id t)) four_teams = [None, None, None, None]"
    by (simp add: empty_table_def four_teams_def)
  from 1 2 show ?thesis by simp
qed

text \<open>
  Claim C4 on scenario 2 of the spec (cap 1, flat rule, break size 2, teams A and B of one
  institution and C of another, empty table). The claim asks that A is not capped and B is.
  The cap check as line 162 calls it raises AttributeError for A (count 0, rank 1) and would
  for B (count 1, rank 2); the call for the category raises at A, and B has no row, hence no
  remark.
\<close>

theorem scenario_2_cap_check_raises:
  "capped_out (Category_arg (flat_cap_category 2)) (Int_arg 0) 1 = Inl AttributeError \<and>
   capped_out (Category_arg (flat_cap_category 2)) (Int_arg 1) 2 = Inl AttributeError \<and>
   generate_teams_breaking (flat_cap_category 2) three_teams {} empty_table =
     (empty_table, Inl AttributeError) \<and>
   empty_table (1, 2) = None"
proof -
  have "walk (flat_cap_category 2) empty_table {} 1 three_teams initial_state = Inl AttributeError"
    by (simp add: three_teams_def flat_cap_category_def empty_table_def walk_defs)
  then have 1: "generate_teams_breaking (flat_cap_category 2) three_teams {} empty_table =
     (empty_table, Inl AttributeError)"
    by (simp add: generate_teams_breaking_def)
  from 1 show ?thesis by (simp add: capped_out_def empty_table_def)
qed

text \<open>The loop over the categories when the computation of the first one raises.\<close>

lemma update_all_loop_first_raises:
  assumes "generate_teams_breaking c (eligible_team_set st c) {} db = (db, Inl e)"
  shows "update_all_loop st (c # cs) ({}, {}, None, db) = (({}, {}, Some (priority c), db), Some e)"
  using assms by (simp add: Let_def)

text \<open>
  Claim C5 on a table in which team 1 holds a break rank in category 1 (priority 1) and in
  category 3 (priority 2). The claim asks that after the computation of all categories no
  team holds a break rank in two categories of different priority, the team being marked as
  breaking in a different category in the later one. The computation raises AttributeError
  in category 1, the first in priority order, and leaves the table: team 1 still holds both
  break ranks and neither row has a remark.
\<close>

theorem double_break_survives_update_all:
  "update_all_teams_breaking versatile_teams three_categories double_break_table =
     (double_break_table, Some AttributeError) \<and>
   has_break_rank double_break_table 1 1 \<and> has_break_rank double_break_table 3 1 \<and>
   priority (single_category 1 1) < priority (single_category 3 2) \<and>
   map (\<lambda>c. remark (the (double_break_table (pk c, 1)))) [single_category 1 1, single_category 3 2] =
     [None, None]"
proof -
  have o: "order_by_priority three_categories =
      [single_category 1 1, single_category 2 1, single_category 3 2]"
    by (simp add: order_by_priority_def three_categories_def single_category_def)
  have e: "eligible_team_set versatile_teams (single_category 1 1) = versatile_teams"
    by (simp add: eligible_team_set_def single_category_def versatile_teams_def)
  have "walk (single_category 1 1) double_break_table {} 1 versatile_teams initial_state =
      Inl AttributeError"
    by (simp add: versatile_teams_def single_category_def double_break_table_def empty_table_def
        walk_defs)
  then have g: "generate_teams_breaking (single_category 1 1) versatile_teams {} double_break_table =
     (double_break_table, Inl AttributeError)"
    by (simp add: generate_teams_breaking_def)
  from g e have "generate_teams_breaking (single_category 1 1)
      (eligible_team_set versatile_teams (single_category 1 1)) {} double_break_table =
     (double_break_table, Inl AttributeError)"
    by simp
  then have l: "update_all_loop versatile_teams
      [single_category 1 1, single_category 2 1, single_category 3 2]
      ({}, {}, None, double_break_table) =
     (({}, {}, Some (priority (single_category 1 1)), double_break_table), Some AttributeError)"
    by (rule update_all_loop_first_raises)
  have 1: "update_all_teams_breaking versatile_teams three_categories double_break_table =
     (double_break_table, Some AttributeError)"
    unfolding update_all_teams_breaking_def o l by simp
  have 2: "has_break_rank double_break_table 1 1 \<and> has_break_rank double_break_table 3 1"
    by (simp add: has_break_rank_def double_break_table_def empty_table_def)
  have 3: "priority (single_category 1 1) < priority (single_category 3 2)"
    by (simp add: single_category_def)
  have 4: "map (\<lambda>c. remark (the (double_break_table (pk c, 1)))) [single_category 1 1, single_category 3 2] =
     [None, None]"
    by (simp add: single_category_def double_break_table_def empty_table_def)
  from 1 2 3 4 show ?thesis by simp
qed

text \<open>
  Claim C6 on a table in which team 9, which is not among the ranked teams, holds a break
  rank of category 1 from an earlier computation. The claim asks that the computation deletes
  that row. The call raises AttributeError at the first team and the row stays, with its
  break rank.
\<close>

theorem stale_break_rank_not_superseded:
  "generate_teams_breaking (open_category 2) two_teams {} stale_table =
     (stale_table, Inl AttributeError) \<and>
   has_break_rank stale_table 1 9 \<and> 9 \<notin> set (map team_id two_teams)"
proof -
  have "walk (open_category 2) stale_table {} 1 two_teams initial_state = Inl AttributeError"
    by (simp add: two_teams_def open_category_def stale_table_def empty_table_def walk_defs)
  then have 1: "generate_teams_breaking (open_category 2) two_teams {} stale_table =
     (stale_table, Inl AttributeError)"
    by (simp add: generate_teams_breaking_def)
  have 2: "has_break_rank stale_table 1 9 \<and> 9 \<notin> set (map team_id two_teams)"
    by (simp add: has_break_rank_def stale_table_def empty_table_def two_teams_def)
  from 1 2 show ?thesis by simp
qed

text \<open>
  Claim C7 on a table in which team 2 of category 1 has rank 7, break rank 3 and the remark
  withdrawn, the ranked teams being team 1 and team 2. The claim asks that the computation
  keeps the remark, clears the break rank and updates the rank. With break size 2 the call
  raises AttributeError at team 1 and the row keeps break rank 3 and rank 7. With break size 0
  the call returns and the row is deleted, remark and all.
\<close>

theorem remarked_row_not_scrubbed:
  "generate_teams_breaking (open_category 2) two_teams {} (withdrawn_table 2) =
     (withdrawn_table 2, Inl AttributeError) \<and>
   withdrawn_table 2 (1, 2) =
     Some \<lparr>rank = 7, break_rank = Some 3, remark = Some REMARK_WITHDRAWN\<rparr> \<and>
   snd (generate_teams_breaking (open_category 0) two_teams {} (withdrawn_table 2)) = Inr [] \<and>
   fst (generate_teams_breaking (open_category 0) two_teams {} (withdrawn_table 2)) (1, 2) = None"
proof -
  have "walk (open_category 2) (withdrawn_table 2) {} 1 two_teams initial_state = Inl AttributeError"
    by (simp add: two_teams_def open_category_def withdrawn_table_def empty_table_def walk_defs)
  then have 1: "generate_teams_breaking (open_category 2) two_teams {} (withdrawn_table 2) =
     (withdrawn_table 2, Inl AttributeError)"
    by (simp add: generate_teams_breaking_def)
  have 2: "withdrawn_table 2 (1, 2) =
     Some \<lparr>rank = 7, break_rank = Some 3, remark = Some REMARK_WITHDRAWN\<rparr>"
    by (simp add: withdrawn_table_def)
  have "generate_teams_breaking (open_category 0) two_teams {} (withdrawn_table 2) =
          (delete_not_breaking (pk (open_category 0)) [] (withdrawn_table 2), Inr [])"
    by (rule generate_nonpositive) (simp add: open_category_def)
  then have 3: "snd (generate_teams_breaking (open_category 0) two_teams {} (withdrawn_table 2)) = Inr []"
    and 4: "fst (generate_teams_breaking (open_category 0) two_teams {} (withdrawn_table 2)) (1, 2) = None"
    by (simp_all add: delete_not_breaking_def has_break_rank_def withdrawn_table_def open_category_def)
  from 1 2 3 4 show ?thesis by simp
qed

section \<open>Properties of allocations and of the draw\<close>

text \<open>The rows that \<^verbatim>\<open>save\<close> writes for members with a true id.\<close>

lemma member_rows_refers_to:
  "refers_to m n \<Longrightarrow> n \<noteq> 0 \<Longrightarrow> member_rows d (ty, m) = [(d, n, ty)]"
  by (auto simp: refers_to_def member_rows_def)

lemma members_rows:
  "list_all2 refers_to ms ns \<Longrightarrow> 0 \<notin> set ns \<Longrightarrow>
   concat (map (member_rows d) (map (Pair ty) ms)) = map (\<lambda>n. (d, n, ty)) ns"
  by (induction rule: list_all2_induct) (auto simp: member_rows_refers_to)

text \<open>
  Claim C9. An allocation is valid exactly when it has a chair and its panel has even size.
  \<^verbatim>\<open>save\<close> does not look at validity: for any allocation, valid or not, whose members
  have the ids \<open>c\<close> (chair, if any), \<open>ps\<close> (panel) and \<open>ts\<close> (trainees), none of
  them 0, the table after the save holds the rows of the other debates followed by one row
  for each member: the chair, the panel in order, the trainees in order. Nothing is added or
  left out to make the allocation valid. Validity is reported by
  \<^verbatim>\<open>adjudicators_allocation_validity\<close>, which is 0 exactly when every allocation is
  valid.
\<close>

theorem valid_iff_chair_and_even_panel:
  assumes "rel_option refers_to (chair a) c"
    and "list_all2 refers_to (panel a) ps"
    and "list_all2 refers_to (trainees a) ts"
    and "0 \<notin> set_option c \<union> set ps \<union> set ts"
  shows "(valid a \<longleftrightarrow> chair a \<noteq> None \<and> even (length (panel a))) \<and>
         save a rows =
           filter (\<lambda>r. fst r \<noteq> debate a) rows @
           (case c of None \<Rightarrow> [] | Some n \<Rightarrow> [(debate a, n, TYPE_CHAIR)]) @
           map (\<lambda>n. (debate a, n, TYPE_PANEL)) ps @
           map (\<lambda>n. (debate a, n, TYPE_TRAINEE)) ts \<and>
         (adjudicators_allocation_validity allocations = 0 \<longleftrightarrow> list_all valid allocations)"
proof -
  have chairs: "list_all valid xs \<Longrightarrow> list_all has_chair xs" for xs
    by (induction xs) (auto simp: valid_def)
  have 1: "valid a \<longleftrightarrow> chair a \<noteq> None \<and> even (length (panel a))"
    by (auto simp: valid_def has_chair_def even_iff_mod_2_eq_zero)
  have ch: "(case chair a of None \<Rightarrow> [] | Some m \<Rightarrow> member_rows (debate a) (TYPE_CHAIR, m)) =
            (case c of None \<Rightarrow> [] | Some n \<Rightarrow> [(debate a, n, TYPE_CHAIR)])"
    using assms(1,4) by (cases "chair a"; cases c) (auto simp: member_rows_refers_to)
  have pa: "concat (map (member_rows (debate a)) (map (Pair TYPE_PANEL) (panel a))) =
            map (\<lambda>n. (debate a, n, TYPE_PANEL)) ps"
    using assms(2,4) by (intro members_rows) auto
  have tr: "concat (map (member_rows (debate a)) (map (Pair TYPE_TRAINEE) (trainees a))) =
            map (\<lambda>n. (debate a, n, TYPE_TRAINEE)) ts"
    using assms(3,4) by (intro members_rows) auto
  have "concat (map (member_rows (debate a)) (iter a)) =
          (case chair a of None \<Rightarrow> [] | Some m \<Rightarrow> member_rows (debate a) (TYPE_CHAIR, m)) @
          concat (map (member_rows (debate a)) (map (Pair TYPE_PANEL) (panel a))) @
          concat (map (member_rows (debate a)) (map (Pair TYPE_TRAINEE) (trainees a)))"
    by (simp add: iter_def split: option.splits)
  with ch pa tr have 2: "save a rows =
           filter (\<lambda>r. fst r \<noteq> debate a) rows @
           (case c of None \<Rightarrow> [] | Some n \<Rightarrow> [(debate a, n, TYPE_CHAIR)]) @
           map (\<lambda>n. (debate a, n, TYPE_PANEL)) ps @
           map (\<lambda>n. (debate a, n, TYPE_TRAINEE)) ts"
    by (simp add: save_def)
  have 3: "adjudicators_allocation_validity allocations = 0 \<longleftrightarrow> list_all valid allocations"
    using chairs [of allocations] by (auto simp: adjudicators_allocation_validity_def)
  from 1 2 3 show ?thesis by blast
qed

text \<open>
  The theorem of C9 at an allocation that is not valid, with no chair and a panel of one: the
  save replaces the old chair row of debate 7 by the rows of the panellist and the trainee and
  keeps the row of debate 8; the allocation is reported as not valid.
\<close>

theorem valid_iff_chair_and_even_panel_witness:
  "rel_option refers_to (chair unchaired_allocation) None \<and>
   list_all2 refers_to (panel unchaired_allocation) [3] \<and>
   list_all2 refers_to (trainees unchaired_allocation) [5] \<and>
   \<not> valid unchaired_allocation \<and>
   save unchaired_allocation stored_rows =
     [(8, 2, TYPE_CHAIR), (7, 3, TYPE_PANEL), (7, 5, TYPE_TRAINEE)] \<and>
   adjudicators_allocation_validity [unchaired_allocation] \<noteq> 0"
proof -
  have 1: "rel_option refers_to (chair unchaired_allocation) None"
    by (simp add: unchaired_allocation_def)
  have 2: "list_all2 refers_to (panel unchaired_allocation) [3]"
    by (simp add: unchaired_allocation_def refers_to_def)
  have 3: "list_all2 refers_to (trainees unchaired_allocation) [5]"
    by (simp add: unchaired_allocation_def refers_to_def)
  have 4: "0 \<notin> set_option None \<union> set [3::nat] \<union> set [5]"
    by simp
  from valid_iff_chair_and_even_panel [OF 1 2 3 4, of stored_rows "[unchaired_allocation]"] 1 2 3
  show ?thesis
    by (simp add: unchaired_allocation_def stored_rows_def)
qed

text \<open>
  Claim C10. With fewer active venues than pairings, \<^verbatim>\<open>make_debates\<close> raises
  \<^verbatim>\<open>DrawError\<close> and the tables are the ones it was called with: no debate was
  stored.
\<close>

theorem make_debates_too_few_venues:
  assumes "length active_venues < length pairings"
  shows "make_debates shuffle_venues shuffle_pairings r active_venues pairings db =
           (db, Some (DrawError (length pairings) (length active_venues)))"
  using assms by (simp add: make_debates_def Let_def)

text \<open>
  The theorem of C10 with one venue and two pairings.
\<close>

theorem make_debates_too_few_venues_witness:
  "length one_venue < length two_pairings \<and>
   make_debates keep_order keep_order 1 one_venue two_pairings no_debates =
     (no_debates, Some (DrawError 2 1))"
proof -
  have 1: "length one_venue < length two_pairings"
    by (simp add: one_venue_def two_pairings_def)
  from make_debates_too_few_venues [OF 1, of keep_order keep_order 1 no_debates] 1 show ?thesis
    by (simp add: one_venue_def two_pairings_def)
qed

text \<open>With enough venues the call raises nothing and stores one debate for each pairing.\<close>

lemma make_debates_enough_venues:
  assumes "length pairings \<le> length active_venues" and "length (shuffle_pairings pairings) = length pairings"
  shows "snd (make_debates shuffle_venues shuffle_pairings r active_venues pairings db) = None \<and>
         length (debates (fst (make_debates shuffle_venues shuffle_pairings r active_venues pairings db))) =
           length (debates db) + length pairings"
proof -
  have "length (debates (create_debates r vs ps t)) = length (debates t) + length ps" for vs ps t
    by (induction ps arbitrary: vs t) (auto simp: Let_def split_beta)
  with assms show ?thesis
    by (simp add: make_debates_def Let_def)
qed

end
